theory Spec2Isabelle
  imports Complex_Main
begin

section \<open>Floating-point numbers\<close>

text \<open>
  A \<^verbatim>\<open>double\<close> is a finite number, the negative zero, one of the two infinities or a
  NaN.  \<open>Finite 0\<close> is the positive zero.  The model keeps a finite result exact: the
  rounding of the significand to 53 bits and the underflow of tiny results are outside of
  it.  Overflow is inside: an exact result whose magnitude reaches \<open>2^1024 - 2^970\<close>
  (half a unit in the last place above \<open>DBL_MAX\<close>) becomes an infinity, as the rounding
  to nearest of IEEE 754 decides it.  The sign and the payload of a NaN are not modelled.
\<close>

datatype double = Finite real | NegZero | PosInf | NegInf | NaN

definition DBL_MAX :: real where
  "DBL_MAX = (2 ^ 53 - 1) * 2 ^ 971"

definition overflow_bound :: real where
  "overflow_bound = 2 ^ 1024 - 2 ^ 970"

definition rounded :: "real \<Rightarrow> double" where
  "rounded t =
     (if overflow_bound \<le> t then PosInf else if t \<le> - overflow_bound then NegInf else Finite t)"

definition is_inf :: "double \<Rightarrow> bool" where
  "is_inf x \<longleftrightarrow> x = PosInf \<or> x = NegInf"

definition is_zero :: "double \<Rightarrow> bool" where
  "is_zero x \<longleftrightarrow> x = Finite 0 \<or> x = NegZero"

definition is_finite :: "double \<Rightarrow> bool" where
  "is_finite x \<longleftrightarrow> (case x of Finite r \<Rightarrow> True | NegZero \<Rightarrow> True | _ \<Rightarrow> False)"

definition finite_value :: "double \<Rightarrow> real" where
  "finite_value x = (case x of Finite r \<Rightarrow> r | _ \<Rightarrow> 0)"

definition sign_bit :: "double \<Rightarrow> bool" where
  "sign_bit x \<longleftrightarrow>
     (case x of Finite r \<Rightarrow> r < 0 | NegZero \<Rightarrow> True | PosInf \<Rightarrow> False | NegInf \<Rightarrow> True
      | NaN \<Rightarrow> False)"

definition signed_zero :: "bool \<Rightarrow> double" where
  "signed_zero negative = (if negative then NegZero else Finite 0)"

definition signed_inf :: "bool \<Rightarrow> double" where
  "signed_inf negative = (if negative then NegInf else PosInf)"

text \<open>The place of a number in the order: the infinities lie outside of the finite numbers.\<close>

definition rank :: "double \<Rightarrow> int" where
  "rank x = (case x of PosInf \<Rightarrow> 1 | NegInf \<Rightarrow> - 1 | _ \<Rightarrow> 0)"

text \<open>
  The operations that the program uses, with the special cases of IEEE 754: a NaN operand
  gives a NaN, and so do the sum of the two infinities, an infinity divided by an infinity
  and a zero divided by a zero; the sum of two negative zeros is the negative zero and every
  other sum that is zero is the positive zero; the sign of a quotient is the product of
  the signs; a comparison with a NaN is false, and the two zeros are equal in the order.
  \<open>\<bar>x\<bar>\<close> is \<^verbatim>\<open>fabs\<close>.
\<close>

instantiation double :: "{plus, uminus, minus, inverse, abs, ord}"
begin

definition plus_double :: "double \<Rightarrow> double \<Rightarrow> double" where
  "x + y =
     (if x = NaN \<or> y = NaN then NaN
      else if is_inf x then (if is_inf y \<and> y \<noteq> x then NaN else x)
      else if is_inf y then y
      else if x = NegZero then y
      else if y = NegZero then x
      else rounded (finite_value x + finite_value y))"

definition uminus_double :: "double \<Rightarrow> double" where
  "- x =
     (case x of Finite r \<Rightarrow> (if r = 0 then NegZero else Finite (- r)) | NegZero \<Rightarrow> Finite 0
      | PosInf \<Rightarrow> NegInf | NegInf \<Rightarrow> PosInf | NaN \<Rightarrow> NaN)"

definition minus_double :: "double \<Rightarrow> double \<Rightarrow> double" where
  "(x::double) - y = x + (- y)"

definition divide_double :: "double \<Rightarrow> double \<Rightarrow> double" where
  "divide x y =
     (if x = NaN \<or> y = NaN then NaN
      else if is_inf x then (if is_inf y then NaN else signed_inf (sign_bit x \<noteq> sign_bit y))
      else if is_inf y then signed_zero (sign_bit x \<noteq> sign_bit y)
      else if is_zero y then (if is_zero x then NaN else signed_inf (sign_bit x \<noteq> sign_bit y))
      else if is_zero x then signed_zero (sign_bit x \<noteq> sign_bit y)
      else rounded (finite_value x / finite_value y))"

definition inverse_double :: "double \<Rightarrow> double" where
  "inverse x = divide (Finite 1) x"

definition abs_double :: "double \<Rightarrow> double" where
  "\<bar>x\<bar> =
     (case x of Finite r \<Rightarrow> Finite \<bar>r\<bar> | NegZero \<Rightarrow> Finite 0 | PosInf \<Rightarrow> PosInf
      | NegInf \<Rightarrow> PosInf | NaN \<Rightarrow> NaN)"

definition less_eq_double :: "double \<Rightarrow> double \<Rightarrow> bool" where
  "x \<le> y \<longleftrightarrow>
     x \<noteq> NaN \<and> y \<noteq> NaN \<and>
     (rank x < rank y \<or> (rank x = rank y \<and> finite_value x \<le> finite_value y))"

definition less_double :: "double \<Rightarrow> double \<Rightarrow> bool" where
  "x < y \<longleftrightarrow>
     x \<noteq> NaN \<and> y \<noteq> NaN \<and>
     (rank x < rank y \<or> (rank x = rank y \<and> finite_value x < finite_value y))"

instance ..

end

text \<open>
  A finite number of magnitude at most \<open>b\<close>; the negative zero is one.
\<close>

definition finite_within :: "real \<Rightarrow> double \<Rightarrow> bool" where
  "finite_within b x \<longleftrightarrow>
     (case x of Finite r \<Rightarrow> \<bar>r\<bar> \<le> b | NegZero \<Rightarrow> True | _ \<Rightarrow> False)"

section \<open>Data model\<close>

text \<open>
  The program simulates heat diffusion on a square plate held in a C array
  \<^verbatim>\<open>double[PLATE_SIZE][PLATE_SIZE]\<close>.  A plate is modelled as a list of rows, each row a
  list of cells.  The C type fixes the shape of every plate; in the model that shape is the
  predicate \<open>plate_ok\<close>.

  The indices of the loops are natural numbers, and the counter of the steady-state loop is
  an integer; it stays below one million, so a 32-bit \<^verbatim>\<open>int\<close> never wraps.

  The functions of the program receive their plates as pointers and write through them, so
  they are modelled on an explicit store \<open>'r heap\<close> that maps every array reference to the
  plate it currently holds.  Two parameters of one call may name the same array.
\<close>

type_synonym plate = "double list list"
type_synonym 'r heap = "'r \<Rightarrow> plate"

definition PLATE_SIZE :: nat where
  "PLATE_SIZE = 10"

definition INITIAL_TEMP :: double where
  "INITIAL_TEMP = Finite 100"

definition HEAT_EPSILON :: double where
  "HEAT_EPSILON = Finite (1 / 10)"

definition OUTPUT_PRECISION :: nat where
  "OUTPUT_PRECISION = 3"

definition OUTPUT_WIDTH :: nat where
  "OUTPUT_WIDTH = 9"

definition ITERATION_LIMIT :: int where
  "ITERATION_LIMIT = 999999"

definition DESIRED_ITERATIONS :: nat where
  "DESIRED_ITERATIONS = 3"

definition plate_ok :: "plate \<Rightarrow> bool" where
  "plate_ok p \<longleftrightarrow> length p = PLATE_SIZE \<and> list_all (\<lambda>row. length row = PLATE_SIZE) p"

text \<open>Reading \<^verbatim>\<open>p[i][j]\<close> and the assignment \<^verbatim>\<open>p[i][j] = v\<close>.\<close>

definition cell :: "plate \<Rightarrow> nat \<Rightarrow> nat \<Rightarrow> double" where
  "cell p i j = p ! i ! j"

definition store_cell :: "plate \<Rightarrow> nat \<Rightarrow> nat \<Rightarrow> double \<Rightarrow> plate" where
  "store_cell p i j v = p[i := (p ! i)[j := v]]"

definition assign :: "'r \<Rightarrow> nat \<Rightarrow> nat \<Rightarrow> double \<Rightarrow> 'r heap \<Rightarrow> 'r heap" where
  "assign a i j v h = h(a := store_cell (h a) i j v)"

definition interior :: "nat \<Rightarrow> nat \<Rightarrow> bool" where
  "interior i j \<longleftrightarrow> 0 < i \<and> i < PLATE_SIZE - 1 \<and> 0 < j \<and> j < PLATE_SIZE - 1"

definition in_plate :: "nat \<Rightarrow> nat \<Rightarrow> bool" where
  "in_plate i j \<longleftrightarrow> i < PLATE_SIZE \<and> j < PLATE_SIZE"

text \<open>The plate whose cells all hold the value \<open>c\<close>.\<close>

definition uniform :: "double \<Rightarrow> plate" where
  "uniform c = replicate PLATE_SIZE (replicate PLATE_SIZE c)"

section \<open>Loops\<close>

text \<open>
  The counting loop \<^verbatim>\<open>for (int i = a; i < n; i++) body\<close> on a state \<open>s\<close>.
\<close>

function for_loop :: "nat \<Rightarrow> nat \<Rightarrow> (nat \<Rightarrow> 's \<Rightarrow> 's) \<Rightarrow> 's \<Rightarrow> 's" where
  "for_loop i n body s = (if i < n then for_loop (i + 1) n body (body i s) else s)"
  by pat_completeness auto
termination
  by (relation "measure (\<lambda>(i, n, body, s). n - i)") auto

declare for_loop.simps [simp del]

section \<open>The operations on plates\<close>

definition InitPlate :: "'r \<Rightarrow> 'r heap \<Rightarrow> 'r heap" where
  "InitPlate passedHeatDist =
     for_loop 0 PLATE_SIZE (\<lambda>i.
       for_loop 0 PLATE_SIZE (\<lambda>j h.
         if i = 0 \<or> i = PLATE_SIZE - 1 then
           (if j > 0 \<and> j < PLATE_SIZE - 1 then assign passedHeatDist i j INITIAL_TEMP h
            else assign passedHeatDist i j (Finite 0) h)
         else assign passedHeatDist i j (Finite 0) h))"

text \<open>
  \<open>StateChanged\<close> leaves both loops at the first cell that differs by more than the
  threshold, so its loops are written out with their early return.
\<close>

function StateChanged_cols :: "plate \<Rightarrow> plate \<Rightarrow> double \<Rightarrow> nat \<Rightarrow> nat \<Rightarrow> bool" where
  "StateChanged_cols oldHeatArray newHeatDist epsilonVal i j =
     (if j < PLATE_SIZE - 1 then
        (if \<bar>cell newHeatDist i j - cell oldHeatArray i j\<bar> > epsilonVal then True
         else StateChanged_cols oldHeatArray newHeatDist epsilonVal i (j + 1))
      else False)"
  by pat_completeness auto
termination
  by (relation "measure (\<lambda>(old, new, eps, i, j). PLATE_SIZE - 1 - j)") auto

function StateChanged_rows :: "plate \<Rightarrow> plate \<Rightarrow> double \<Rightarrow> nat \<Rightarrow> bool" where
  "StateChanged_rows oldHeatArray newHeatDist epsilonVal i =
     (if i < PLATE_SIZE - 1 then
        (if StateChanged_cols oldHeatArray newHeatDist epsilonVal i 1 then True
         else StateChanged_rows oldHeatArray newHeatDist epsilonVal (i + 1))
      else False)"
  by pat_completeness auto
termination
  by (relation "measure (\<lambda>(old, new, eps, i). PLATE_SIZE - 1 - i)") auto

declare StateChanged_cols.simps [simp del] StateChanged_rows.simps [simp del]

definition StateChanged :: "'r \<Rightarrow> 'r \<Rightarrow> double \<Rightarrow> 'r heap \<Rightarrow> bool" where
  "StateChanged oldHeatArray newHeatDist epsilonVal h =
     StateChanged_rows (h oldHeatArray) (h newHeatDist) epsilonVal 1"

definition UpdateTemps :: "'r \<Rightarrow> 'r \<Rightarrow> 'r heap \<Rightarrow> 'r heap" where
  "UpdateTemps inputHeatDist outputHeatDist =
     for_loop 1 (PLATE_SIZE - 1) (\<lambda>i.
       for_loop 1 (PLATE_SIZE - 1) (\<lambda>j h.
         let topNeighbor = cell (h inputHeatDist) (i - 1) j;
             leftNeighbor = cell (h inputHeatDist) i (j - 1);
             rightNeighbor = cell (h inputHeatDist) i (j + 1);
             bottomNeighbor = cell (h inputHeatDist) (i + 1) j
         in assign outputHeatDist i j
              ((topNeighbor + leftNeighbor + rightNeighbor + bottomNeighbor) / Finite 4) h))"

definition TransferValues :: "'r \<Rightarrow> 'r \<Rightarrow> 'r heap \<Rightarrow> 'r heap" where
  "TransferValues sourceArray destArray =
     for_loop 0 PLATE_SIZE (\<lambda>i.
       for_loop 0 PLATE_SIZE (\<lambda>j h.
         assign destArray i j (cell (h sourceArray) i j) h))"

section \<open>Text output\<close>

text \<open>
  The program writes plates with the stream library: \<^verbatim>\<open>fixed\<close> and
  \<^verbatim>\<open>setprecision(p)\<close> select the fixed-point notation with \<open>p\<close> digits after the
  decimal point, and \<^verbatim>\<open>setw(w)\<close> pads the next field on the left with spaces up to a
  width of \<open>w\<close> characters; a field that is longer than \<open>w\<close> is written in full.
  These library functions are no part of the program; they are modelled from their
  documentation.  \<open>show_decimal p negative a\<close> is the decimal notation of the magnitude
  \<open>a\<close> rounded to \<open>p\<close> digits after the point (to the nearest value, a tie to the even
  digit), after a minus sign when the sign bit is set.  \<open>show_fixed nonfinite p x\<close> is
  the text of the double \<open>x\<close>: the decimal notation for a finite number and for the
  negative zero.  How an infinity or a NaN is written is defined by the implementation of
  the library (one of \<^verbatim>\<open>inf\<close>, \<^verbatim>\<open>infinity\<close>, \<^verbatim>\<open>nan\<close> and others, with or without a
  sign); the model takes that text from the parameter \<open>nonfinite\<close>.
\<close>

definition digit_char :: "nat \<Rightarrow> char" where
  "digit_char d = ''0123456789'' ! d"

function show_nat :: "nat \<Rightarrow> string" where
  "show_nat n = (if n < 10 then [digit_char n] else show_nat (n div 10) @ [digit_char (n mod 10)])"
  by pat_completeness auto
termination
  by (relation "measure (\<lambda>n. n)") auto

declare show_nat.simps [simp del]

definition round_half_even :: "real \<Rightarrow> int" where
  "round_half_even x =
     (let f = \<lfloor>x\<rfloor>; d = x - of_int f
      in if d < 1 / 2 then f else if d > 1 / 2 then f + 1 else if even f then f else f + 1)"

definition show_frac :: "nat \<Rightarrow> nat \<Rightarrow> string" where
  "show_frac p n = replicate (p - length (show_nat n)) (CHR ''0'') @ show_nat n"

definition show_decimal :: "nat \<Rightarrow> bool \<Rightarrow> real \<Rightarrow> string" where
  "show_decimal p negative a =
     (let n = nat (round_half_even (a * 10 ^ p))
      in (if negative then ''-'' else []) @ show_nat (n div 10 ^ p) @
         (if p = 0 then [] else ''.'' @ show_frac p (n mod 10 ^ p)))"

definition show_fixed :: "(double \<Rightarrow> string) \<Rightarrow> nat \<Rightarrow> double \<Rightarrow> string" where
  "show_fixed nonfinite p x =
     (case x of
        Finite r \<Rightarrow> show_decimal p (r < 0) \<bar>r\<bar>
      | NegZero \<Rightarrow> show_decimal p True 0
      | _ \<Rightarrow> nonfinite x)"

definition setw :: "nat \<Rightarrow> string \<Rightarrow> string" where
  "setw w field = replicate (w - length field) (CHR '' '') @ field"

definition endl :: string where
  "endl = [CHR 0x0A]"

text \<open>
  \<open>OutputPlate\<close> appends the plate to the text that the stream holds.  It sets the
  notation and the precision of the stream before it writes the first cell, so the result
  does not depend on how the stream was configured before.
\<close>

definition OutputPlate ::
  "(double \<Rightarrow> string) \<Rightarrow> 'r \<Rightarrow> 'r heap \<Rightarrow> string \<Rightarrow> string" where
  "OutputPlate nonfinite passedHeatDist h =
     for_loop 0 PLATE_SIZE (\<lambda>i outputStream.
       for_loop 0 PLATE_SIZE (\<lambda>j outputStream.
         let outputStream = outputStream @
               setw OUTPUT_WIDTH
                 (show_fixed nonfinite OUTPUT_PRECISION (cell (h passedHeatDist) i j))
         in if j \<noteq> PLATE_SIZE - 1 then outputStream @ '','' else outputStream) outputStream
       @ endl)"

section \<open>Files and the state of the program\<close>

text \<open>
  The state of a run: the arrays, the text written to the console so far, and the two files.
  \<open>nonfinite_text\<close> is the text that the stream library of the platform writes for an
  infinity or a NaN.
  \<open>csv_writable\<close> says whether \<^verbatim>\<open>Hotplate.csv\<close> can be opened for writing, and
  \<open>hotplate_csv\<close> is the text written to it (\<open>None\<close> as long as nothing was written).
  \<open>inputplate_txt\<close> is \<open>None\<close> when \<^verbatim>\<open>Inputplate.txt\<close> cannot be opened.  Otherwise it
  holds the file as the stream extraction sees it: the numbers that successive
  \<^verbatim>\<open>>>\<close> read, up to the end of the file or to a field that is no number.
\<close>

datatype extraction = Num double | Malformed

record 'r world =
  heap :: "'r heap"
  cout :: string
  nonfinite_text :: "double \<Rightarrow> string"
  csv_writable :: bool
  hotplate_csv :: "string option"
  inputplate_txt :: "extraction list option"

record ifstream =
  pending :: "extraction list"
  failbit :: bool

text \<open>
  \<^verbatim>\<open>stream >> x\<close> for a \<^verbatim>\<open>double x\<close>, from the documentation of the library: a stream
  that has failed reads nothing and leaves \<open>x\<close> as it is; at the end of the file the
  stream fails and leaves \<open>x\<close> as it is; a field that is no number makes the stream fail
  and stores zero.
\<close>

definition extract_double :: "ifstream \<Rightarrow> double \<Rightarrow> ifstream \<times> double" where
  "extract_double stream x =
     (if failbit stream then (stream, x)
      else case pending stream of
        [] \<Rightarrow> (stream\<lparr>failbit := True\<rparr>, x)
      | Num v # rest \<Rightarrow> (stream\<lparr>pending := rest\<rparr>, v)
      | Malformed # rest \<Rightarrow> (stream\<lparr>failbit := True\<rparr>, Finite 0))"

definition print :: "string \<Rightarrow> 'r world \<Rightarrow> 'r world" where
  "print text w = w\<lparr>cout := cout w @ text\<rparr>"

definition on_heap :: "('r heap \<Rightarrow> 'r heap) \<Rightarrow> 'r world \<Rightarrow> 'r world" where
  "on_heap f w = w\<lparr>heap := f (heap w)\<rparr>"

definition print_plate :: "'r \<Rightarrow> 'r world \<Rightarrow> 'r world" where
  "print_plate passedHeatDist w =
     w\<lparr>cout := OutputPlate (nonfinite_text w) passedHeatDist (heap w) (cout w)\<rparr>"

definition ExportPlateToCSV :: "'r \<Rightarrow> 'r world \<Rightarrow> int \<times> 'r world" where
  "ExportPlateToCSV passedHeatDist w =
     (if \<not> csv_writable w then
        (1, print (''Could not open file Hotplate.csv'' @ endl) w)
      else
        (0, w\<lparr>hotplate_csv :=
               Some (OutputPlate (nonfinite_text w) passedHeatDist (heap w) [])\<rparr>))"

definition InitPlateFromTxt :: "'r \<Rightarrow> 'r world \<Rightarrow> int \<times> 'r world" where
  "InitPlateFromTxt passedHeatDist w =
     (case inputplate_txt w of
        None \<Rightarrow> (1, print (''Could not open file numFile.txt.'' @ endl) w)
      | Some content \<Rightarrow>
          (0, w\<lparr>heap := snd
                (for_loop 0 PLATE_SIZE (\<lambda>i.
                   for_loop 0 PLATE_SIZE (\<lambda>j (inputTextFileStream, h).
                     let (inputTextFileStream, v) =
                           extract_double inputTextFileStream (cell (h passedHeatDist) i j)
                     in (inputTextFileStream, assign passedHeatDist i j v h)))
                 (\<lparr>pending = content, failbit = False\<rparr>, heap w))\<rparr>))"

section \<open>The driver\<close>

text \<open>The two arrays of \<open>main\<close>.\<close>

datatype buffer = OldHeatDist | NewHeatDist

text \<open>
  The loop that runs to the steady state (a \<^verbatim>\<open>do ... while\<close>): it returns the arrays,
  the flag \<open>hasReachedSteadyState\<close> and the counter as they are when the loop is left.
\<close>

function steady_state_loop :: "buffer heap \<Rightarrow> int \<Rightarrow> buffer heap \<times> bool \<times> int" where
  "steady_state_loop h iterationCount =
     (let h1 = UpdateTemps OldHeatDist NewHeatDist h;
          hasReachedSteadyState = \<not> StateChanged OldHeatDist NewHeatDist HEAT_EPSILON h1;
          h2 = TransferValues NewHeatDist OldHeatDist h1;
          iterationCount1 = iterationCount + 1
      in if \<not> hasReachedSteadyState \<and> iterationCount1 < ITERATION_LIMIT
         then steady_state_loop h2 iterationCount1
         else (h2, hasReachedSteadyState, iterationCount1))"
  by pat_completeness auto
termination
  by (relation "measure (\<lambda>(h, iterationCount). nat (ITERATION_LIMIT - iterationCount))") auto

declare steady_state_loop.simps [simp del]

text \<open>
  The first part of \<open>main\<close>, up to the output of the final plate.  The arrays are not
  initialised when \<open>main\<close> starts: they hold whatever \<open>heap w\<close> gives them.
\<close>

definition simulate :: "buffer world \<Rightarrow> buffer world" where
  \<open>simulate w0 =
     (let w = on_heap (InitPlate OldHeatDist) w0;
          w = on_heap (InitPlate NewHeatDist) w;
          w = print (''Hotplate simulator'' @ endl @ endl) w;
          w = print (''Printing the initial plate values...'' @ endl) w;
          w = print_plate OldHeatDist w;
          w = print (endl @ ''Printing plate after one iteration...'' @ endl) w;
          w = on_heap (UpdateTemps OldHeatDist NewHeatDist) w;
          w = print_plate NewHeatDist w;
          w = on_heap (TransferValues NewHeatDist OldHeatDist) w;
          w = on_heap (\<lambda>h. fst (steady_state_loop h 1)) w;
          w = print (endl @ ''Printing final plate...'' @ endl) w
      in print_plate NewHeatDist w)\<close>

text \<open>\<open>main\<close> returns the exit status of the program and the final state.\<close>

definition main :: "buffer world \<Rightarrow> int \<times> buffer world" where
  \<open>main w0 =
     (let w = simulate w0;
          w = print (endl @ ''Writing final plate to "Hotplate.csv"...'' @ endl @ endl) w;
          (exportStatus, w) = ExportPlateToCSV NewHeatDist w
      in if exportStatus \<noteq> 0 then
           (1, print ''Error occurred when writing to CSV'' w)
         else
           (let (importStatus, w) = InitPlateFromTxt OldHeatDist w;
                w = print (''Printing input plate after 3 updates...'' @ endl) w;
                w = on_heap (for_loop 0 DESIRED_ITERATIONS (\<lambda>i h.
                      TransferValues NewHeatDist OldHeatDist
                        (UpdateTemps OldHeatDist NewHeatDist h))) w;
                w = print_plate OldHeatDist w
            in (0, w)))\<close>

section \<open>The text of a plate\<close>

text \<open>
  The format of the output as the specification words it: a field is a number in
  fixed-point notation with three digits after the point, padded on the left to the width of
  the column; the fields of a row are joined by commas; every row is one line.
\<close>

definition field :: "(double \<Rightarrow> string) \<Rightarrow> double \<Rightarrow> string" where
  "field nonfinite x = setw OUTPUT_WIDTH (show_fixed nonfinite OUTPUT_PRECISION x)"

fun join_fields :: "string list \<Rightarrow> string" where
  "join_fields [] = []"
| "join_fields [f] = f"
| "join_fields (f # g # fs) = f @ '','' @ join_fields (g # fs)"

definition plate_text :: "(double \<Rightarrow> string) \<Rightarrow> plate \<Rightarrow> string" where
  "plate_text nonfinite p =
     concat (map (\<lambda>row. join_fields (map (field nonfinite) row) @ endl) p)"

definition is_digit :: "char \<Rightarrow> bool" where
  "is_digit ch \<longleftrightarrow> ch \<in> set ''0123456789''"

text \<open>
  A state for examples: both arrays hold zeros, nothing was written,
  \<^verbatim>\<open>Inputplate.txt\<close> cannot be opened, and the library writes \<^verbatim>\<open>inf\<close>,
  \<^verbatim>\<open>-inf\<close> and \<^verbatim>\<open>nan\<close>.
\<close>

definition example_nonfinite :: "double \<Rightarrow> string" where
  "example_nonfinite x = (if x = PosInf then ''inf'' else if x = NegInf then ''-inf'' else ''nan'')"

definition example_world :: "bool \<Rightarrow> buffer world" where
  "example_world writable =
     \<lparr>heap = (\<lambda>b. uniform (Finite 0)), cout = [], nonfinite_text = example_nonfinite,
      csv_writable = writable, hotplate_csv = None, inputplate_txt = None\<rparr>"

section \<open>The relaxation in integers\<close>







definition inner :: "'a list \<Rightarrow> 'a list" where
  "inner xs = butlast (tl xs)"





section \<open>Arithmetic of doubles\<close>

lemma overflow_bound_large: "1000 < overflow_bound"
  by (simp add: overflow_bound_def)

lemma DBL_MAX_less_overflow_bound: "DBL_MAX < overflow_bound"
  by (simp add: DBL_MAX_def overflow_bound_def)

lemma rounded_Finite: "\<bar>t\<bar> < overflow_bound \<Longrightarrow> rounded t = Finite t"
  by (auto simp: rounded_def)

lemma Finite_plus: "\<bar>r + s\<bar> < overflow_bound \<Longrightarrow> Finite r + Finite s = Finite (r + s)"
  by (simp add: plus_double_def is_inf_def finite_value_def rounded_Finite)

lemma Finite_minus: "\<bar>r - s\<bar> < overflow_bound \<Longrightarrow> Finite r - Finite s = Finite (r - s)"
  by (simp add: minus_double_def uminus_double_def plus_double_def is_inf_def finite_value_def
      rounded_Finite)

lemma Finite_divide_4: "\<bar>r\<bar> < overflow_bound \<Longrightarrow> Finite r / Finite 4 = Finite (r / 4)"
  by (simp add: divide_double_def is_inf_def is_zero_def sign_bit_def signed_zero_def
      finite_value_def rounded_Finite)

lemma abs_Finite: "\<bar>Finite r\<bar> = Finite \<bar>r\<bar>"
  by (simp add: abs_double_def)

lemma Finite_less: "Finite r < Finite s \<longleftrightarrow> r < s"
  by (simp add: less_double_def rank_def finite_value_def)

lemma Finite_less_eq: "Finite r \<le> Finite s \<longleftrightarrow> r \<le> s"
  by (simp add: less_eq_double_def rank_def finite_value_def)

lemma abs_self_difference: "\<bar>x - x\<bar> = Finite 0 \<or> \<bar>x - x\<bar> = NaN"
  by (cases x)
    (auto simp: minus_double_def uminus_double_def plus_double_def is_inf_def finite_value_def
      rounded_def abs_double_def overflow_bound_def)

lemma no_change_of_equal_cells: "Finite 0 \<le> eps \<Longrightarrow> \<not> eps < \<bar>x - x\<bar>"
  using abs_self_difference[of x]
  by (auto simp: less_double_def less_eq_double_def rank_def finite_value_def
      split: double.splits)

lemma uniform_mean:
  assumes "finite_within (DBL_MAX / 4) c"
  shows "(c + c + c + c) / Finite 4 = c"
proof (cases c)
  case (Finite r)
  then have r: "\<bar>r\<bar> \<le> DBL_MAX / 4"
    using assms by (simp add: finite_within_def)
  then have b: "\<bar>r + r\<bar> < overflow_bound" "\<bar>r + r + r\<bar> < overflow_bound"
    "\<bar>r + r + r + r\<bar> < overflow_bound"
    using DBL_MAX_less_overflow_bound by (auto simp: abs_if split: if_splits)
  show ?thesis
    unfolding Finite using b by (simp add: Finite_plus Finite_divide_4)
next
  case NegZero
  then show ?thesis
    by (simp add: plus_double_def divide_double_def is_inf_def is_zero_def sign_bit_def
        signed_zero_def)
qed (use assms in \<open>simp_all add: finite_within_def\<close>)

lemma overflowing_mean:
  assumes "overflow_bound \<le> r + r"
  shows "(Finite r + Finite r + Finite r + Finite r) / Finite 4 = PosInf"
  using assms
  by (simp add: plus_double_def divide_double_def is_inf_def is_zero_def sign_bit_def
      signed_inf_def finite_value_def rounded_def)

section \<open>Basic facts\<close>

lemma plate_ok_length: "plate_ok p \<Longrightarrow> length p = PLATE_SIZE"
  by (simp add: plate_ok_def)

lemma plate_ok_row: "plate_ok p \<Longrightarrow> i < PLATE_SIZE \<Longrightarrow> length (p ! i) = PLATE_SIZE"
  by (simp add: plate_ok_def list_all_length)

lemma plate_ok_store_cell: "plate_ok p \<Longrightarrow> plate_ok (store_cell p i j v)"
proof (cases "i < length p")
  case True
  assume "plate_ok p"
  then show ?thesis
    using True by (auto simp: plate_ok_def store_cell_def list_all_length nth_list_update)
next
  case False
  assume "plate_ok p"
  then show ?thesis
    using False by (simp add: store_cell_def list_update_beyond)
qed

lemma cell_store_cell:
  "plate_ok p \<Longrightarrow> in_plate i j \<Longrightarrow>
   cell (store_cell p i j v) i' j' = (if i' = i \<and> j' = j then v else cell p i' j')"
  by (auto simp: cell_def store_cell_def in_plate_def plate_ok_def list_all_length
      nth_list_update)

lemma plate_eqI:
  assumes "plate_ok p" and "plate_ok q"
    and "\<And>i j. in_plate i j \<Longrightarrow> cell p i j = cell q i j"
  shows "p = q"
proof (rule nth_equalityI)
  show "length p = length q"
    using assms(1,2) by (simp add: plate_ok_length)
next
  fix i assume "i < length p"
  then have i: "i < PLATE_SIZE"
    using assms(1) by (simp add: plate_ok_length)
  show "p ! i = q ! i"
  proof (rule nth_equalityI)
    show "length (p ! i) = length (q ! i)"
      using assms(1,2) i by (simp add: plate_ok_row)
  next
    fix j assume "j < length (p ! i)"
    then have "in_plate i j"
      using assms(1) i by (simp add: plate_ok_row in_plate_def)
    then show "p ! i ! j = q ! i ! j"
      using assms(3) by (simp add: cell_def)
  qed
qed

text \<open>The invariant rule of the counting loop.\<close>

lemma for_loop_rule:
  assumes "a \<le> n" and "P a s"
    and "\<And>k t. a \<le> k \<Longrightarrow> k < n \<Longrightarrow> P k t \<Longrightarrow> P (k + 1) (body k t)"
  shows "P n (for_loop a n body s)"
  using assms
proof (induction a n body s rule: for_loop.induct)
  case (1 i n body s)
  show ?case
  proof (cases "i < n")
    case True
    have "P n (for_loop (i + 1) n body (body i s))"
    proof (rule "1.IH"[OF True])
      show "i + 1 \<le> n" using True by simp
      show "P (i + 1) (body i s)" using "1.prems"(2,3) True by simp
      show "\<And>k t. i + 1 \<le> k \<Longrightarrow> k < n \<Longrightarrow> P k t \<Longrightarrow> P (k + 1) (body k t)"
        using "1.prems"(3) by simp
    qed
    then show ?thesis
      using True by (subst for_loop.simps) simp
  next
    case False
    then have "i = n" using "1.prems"(1) by simp
    then show ?thesis
      using "1.prems"(2) by (subst for_loop.simps) simp
  qed
qed

section \<open>Loops that fill an array\<close>

text \<open>
  Two nested counting loops that assign one cell in every step, where the assigned values
  do not depend on the array that is written.
\<close>

lemma assign_frame: "r' \<noteq> r \<Longrightarrow> assign r i j v h r' = h r'"
  by (simp add: assign_def)

lemma assign_same: "assign r i j v h r = store_cell (h r) i j v"
  by (simp add: assign_def)

lemma fill_row:
  assumes ok: "plate_ok (t0 r)" and fr: "\<forall>r'. r' \<noteq> r \<longrightarrow> t0 r' = h r'"
    and bounds: "i < PLATE_SIZE" "b \<le> m" "m \<le> PLATE_SIZE"
    and f: "\<And>j t. \<forall>r'. r' \<noteq> r \<longrightarrow> t r' = h r' \<Longrightarrow> f j t = g j"
  defines "t1 \<equiv> for_loop b m (\<lambda>j t. assign r i j (f j t) t) t0"
  shows "plate_ok (t1 r) \<and> (\<forall>r'. r' \<noteq> r \<longrightarrow> t1 r' = h r') \<and>
         (\<forall>i' j'. cell (t1 r) i' j' =
            (if i' = i \<and> b \<le> j' \<and> j' < m then g j' else cell (t0 r) i' j'))"
  unfolding t1_def
proof (rule for_loop_rule[where P = "\<lambda>k t. plate_ok (t r) \<and> (\<forall>r'. r' \<noteq> r \<longrightarrow> t r' = h r') \<and>
         (\<forall>i' j'. cell (t r) i' j' =
            (if i' = i \<and> b \<le> j' \<and> j' < k then g j' else cell (t0 r) i' j'))"])
  show "b \<le> m" by fact
  show "plate_ok (t0 r) \<and> (\<forall>r'. r' \<noteq> r \<longrightarrow> t0 r' = h r') \<and>
    (\<forall>i' j'. cell (t0 r) i' j' = (if i' = i \<and> b \<le> j' \<and> j' < b then g j' else cell (t0 r) i' j'))"
    using ok fr by auto
next
  fix k t
  assume k: "b \<le> k" "k < m"
    and inv: "plate_ok (t r) \<and> (\<forall>r'. r' \<noteq> r \<longrightarrow> t r' = h r') \<and>
         (\<forall>i' j'. cell (t r) i' j' =
            (if i' = i \<and> b \<le> j' \<and> j' < k then g j' else cell (t0 r) i' j'))"
  have fk: "f k t = g k" using inv f by blast
  have ip: "in_plate i k" using k bounds by (simp add: in_plate_def)
  have c: "cell (store_cell (t r) i k (g k)) i' j' =
      (if i' = i \<and> b \<le> j' \<and> j' < k + 1 then g j' else cell (t0 r) i' j')" for i' j'
    using inv k by (auto simp: cell_store_cell[OF _ ip])
  show "plate_ok (assign r i k (f k t) t r) \<and> (\<forall>r'. r' \<noteq> r \<longrightarrow> assign r i k (f k t) t r' = h r') \<and>
         (\<forall>i' j'. cell (assign r i k (f k t) t r) i' j' =
            (if i' = i \<and> b \<le> j' \<and> j' < k + 1 then g j' else cell (t0 r) i' j'))"
    using inv c by (simp add: assign_same assign_frame fk plate_ok_store_cell)
qed

lemma fill_rows:
  assumes ok: "plate_ok (h r)"
    and bounds: "a \<le> n" "n \<le> PLATE_SIZE" "b \<le> m" "m \<le> PLATE_SIZE"
    and f: "\<And>i j t. \<forall>r'. r' \<noteq> r \<longrightarrow> t r' = h r' \<Longrightarrow> f i j t = g i j"
  defines "h1 \<equiv> for_loop a n (\<lambda>i. for_loop b m (\<lambda>j t. assign r i j (f i j t) t)) h"
  shows "plate_ok (h1 r) \<and> (\<forall>r'. r' \<noteq> r \<longrightarrow> h1 r' = h r') \<and>
         (\<forall>i' j'. cell (h1 r) i' j' =
            (if a \<le> i' \<and> i' < n \<and> b \<le> j' \<and> j' < m then g i' j' else cell (h r) i' j'))"
  unfolding h1_def
proof (rule for_loop_rule[where P = "\<lambda>k t. plate_ok (t r) \<and> (\<forall>r'. r' \<noteq> r \<longrightarrow> t r' = h r') \<and>
         (\<forall>i' j'. cell (t r) i' j' =
            (if a \<le> i' \<and> i' < k \<and> b \<le> j' \<and> j' < m then g i' j' else cell (h r) i' j'))"])
  show "a \<le> n" by fact
  show "plate_ok (h r) \<and> (\<forall>r'. r' \<noteq> r \<longrightarrow> h r' = h r') \<and>
    (\<forall>i' j'. cell (h r) i' j' =
       (if a \<le> i' \<and> i' < a \<and> b \<le> j' \<and> j' < m then g i' j' else cell (h r) i' j'))"
    using ok by auto
next
  fix k t
  assume k: "a \<le> k" "k < n"
    and inv: "plate_ok (t r) \<and> (\<forall>r'. r' \<noteq> r \<longrightarrow> t r' = h r') \<and>
         (\<forall>i' j'. cell (t r) i' j' =
            (if a \<le> i' \<and> i' < k \<and> b \<le> j' \<and> j' < m then g i' j' else cell (h r) i' j'))"
  let ?t1 = "for_loop b m (\<lambda>j t. assign r k j (f k j t) t) t"
  have row: "plate_ok (?t1 r) \<and> (\<forall>r'. r' \<noteq> r \<longrightarrow> ?t1 r' = h r') \<and>
         (\<forall>i' j'. cell (?t1 r) i' j' =
            (if i' = k \<and> b \<le> j' \<and> j' < m then g k j' else cell (t r) i' j'))"
  proof (rule fill_row)
    show "plate_ok (t r)" using inv by simp
    show "\<forall>r'. r' \<noteq> r \<longrightarrow> t r' = h r'" using inv by simp
    show "k < PLATE_SIZE" using k bounds by simp
    show "b \<le> m" "m \<le> PLATE_SIZE" by fact+
    show "\<And>j t. \<forall>r'. r' \<noteq> r \<longrightarrow> t r' = h r' \<Longrightarrow> f k j t = g k j" by (rule f)
  qed
  have "cell (?t1 r) i' j' =
      (if a \<le> i' \<and> i' < k + 1 \<and> b \<le> j' \<and> j' < m then g i' j' else cell (h r) i' j')" for i' j'
    using row inv k by auto
  with row show "plate_ok (?t1 r) \<and> (\<forall>r'. r' \<noteq> r \<longrightarrow> ?t1 r' = h r') \<and>
         (\<forall>i' j'. cell (?t1 r) i' j' =
            (if a \<le> i' \<and> i' < k + 1 \<and> b \<le> j' \<and> j' < m then g i' j' else cell (h r) i' j'))"
    by simp
qed

section \<open>What the operations write\<close>

lemma InitPlate_body:
  "(\<lambda>j h. if i = 0 \<or> i = PLATE_SIZE - 1 then
           (if j > 0 \<and> j < PLATE_SIZE - 1 then assign a i j INITIAL_TEMP h
            else assign a i j (Finite 0) h)
         else assign a i j (Finite 0) h) =
   (\<lambda>j h. assign a i j
      (if (i = 0 \<or> i = PLATE_SIZE - 1) \<and> 0 < j \<and> j < PLATE_SIZE - 1 then INITIAL_TEMP
       else Finite 0) h)"
  by (intro ext) simp

lemma InitPlate_result:
  assumes "plate_ok (h a)"
  shows "plate_ok (InitPlate a h a) \<and> (\<forall>r'. r' \<noteq> a \<longrightarrow> InitPlate a h r' = h r') \<and>
    (\<forall>i j. cell (InitPlate a h a) i j =
       (if 0 \<le> i \<and> i < PLATE_SIZE \<and> 0 \<le> j \<and> j < PLATE_SIZE then
          (if (i = 0 \<or> i = PLATE_SIZE - 1) \<and> 0 < j \<and> j < PLATE_SIZE - 1 then INITIAL_TEMP
           else Finite 0)
        else cell (h a) i j))"
  unfolding InitPlate_def InitPlate_body
  by (rule fill_rows) (use assms in simp_all)

lemma InitPlate_ok: "plate_ok (h a) \<Longrightarrow> plate_ok (InitPlate a h a)"
  using InitPlate_result[of h a] by simp

lemma InitPlate_other: "plate_ok (h a) \<Longrightarrow> r \<noteq> a \<Longrightarrow> InitPlate a h r = h r"
  using InitPlate_result[of h a] by simp

lemma InitPlate_cell:
  "plate_ok (h a) \<Longrightarrow> in_plate i j \<Longrightarrow>
   cell (InitPlate a h a) i j =
     (if (i = 0 \<or> i = PLATE_SIZE - 1) \<and> 0 < j \<and> j < PLATE_SIZE - 1 then INITIAL_TEMP
      else Finite 0)"
  using InitPlate_result[of h a] by (simp add: in_plate_def)

lemma UpdateTemps_distinct:
  assumes "inp \<noteq> out" and "plate_ok (h out)"
  shows "plate_ok (UpdateTemps inp out h out) \<and>
    (\<forall>r'. r' \<noteq> out \<longrightarrow> UpdateTemps inp out h r' = h r') \<and>
    (\<forall>i j. cell (UpdateTemps inp out h out) i j =
       (if 1 \<le> i \<and> i < PLATE_SIZE - 1 \<and> 1 \<le> j \<and> j < PLATE_SIZE - 1 then
          (cell (h inp) (i - 1) j + cell (h inp) i (j - 1) + cell (h inp) i (j + 1) +
           cell (h inp) (i + 1) j) / Finite 4
        else cell (h out) i j))"
  unfolding UpdateTemps_def Let_def
  by (rule fill_rows) (use assms in \<open>simp_all add: PLATE_SIZE_def\<close>)



lemma UpdateTemps_cell:
  "inp \<noteq> out \<Longrightarrow> plate_ok (h out) \<Longrightarrow>
   cell (UpdateTemps inp out h out) i j =
     (if interior i j then
        (cell (h inp) (i - 1) j + cell (h inp) i (j - 1) + cell (h inp) i (j + 1) +
         cell (h inp) (i + 1) j) / Finite 4
      else cell (h out) i j)"
  using UpdateTemps_distinct[of inp out h] by (auto simp: interior_def)



section \<open>Uniform plates\<close>

lemma plate_ok_uniform: "plate_ok (uniform c)"
  by (simp add: plate_ok_def uniform_def list_all_length)

lemma cell_uniform: "in_plate i j \<Longrightarrow> cell (uniform c) i j = c"
  by (simp add: cell_def uniform_def in_plate_def)

lemma store_cell_same: "store_cell p i j (cell p i j) = p"
  by (simp add: store_cell_def cell_def)

lemma for_loop_skip:
  assumes "\<And>k. a \<le> k \<Longrightarrow> k < n \<Longrightarrow> body k s = s"
  shows "for_loop a n body s = s"
proof (cases "a \<le> n")
  case True
  show ?thesis
    by (rule for_loop_rule[where P = "\<lambda>k t. t = s"]) (use True assms in simp_all)
next
  case False
  then show ?thesis by (subst for_loop.simps) simp
qed

text \<open>
  When \<open>UpdateTemps\<close> is called with one array as its input and its output, and the
  mean of four cells that hold \<open>c\<close> is \<open>c\<close>, every cell it assigns already holds the
  assigned value.
\<close>

lemma UpdateTemps_in_place_uniform:
  assumes "h a = uniform c" and "(c + c + c + c) / Finite 4 = c"
  shows "UpdateTemps a a h = h"
  unfolding UpdateTemps_def Let_def
proof (rule for_loop_skip)
  fix i assume i: "1 \<le> i" "i < PLATE_SIZE - 1"
  show "for_loop 1 (PLATE_SIZE - 1)
          (\<lambda>j h. assign a i j
             ((cell (h a) (i - 1) j + cell (h a) i (j - 1) + cell (h a) i (j + 1) +
               cell (h a) (i + 1) j) / Finite 4) h) h = h"
  proof (rule for_loop_skip)
    fix j assume j: "1 \<le> j" "j < PLATE_SIZE - 1"
    have "in_plate (i - 1) j" "in_plate i (j - 1)" "in_plate i (j + 1)" "in_plate (i + 1) j"
      "in_plate i j"
      using i j by (auto simp: in_plate_def)
    then have "(cell (h a) (i - 1) j + cell (h a) i (j - 1) + cell (h a) i (j + 1) +
               cell (h a) (i + 1) j) / Finite 4 = cell (h a) i j"
      by (simp add: assms cell_uniform)
    then show "assign a i j
             ((cell (h a) (i - 1) j + cell (h a) i (j - 1) + cell (h a) i (j + 1) +
               cell (h a) (i + 1) j) / Finite 4) h = h"
      by (simp add: assign_def store_cell_same)
  qed
qed

section \<open>Plate initialisation\<close>

text \<open>
  Claim C4.  \<open>InitPlate\<close> sets every cell of the top row and of the bottom row to 100,
  except the four corners, and every other cell of the plate to 0: the corners, the left and
  the right column and the interior.
\<close>

theorem InitPlate_cells:
  assumes "plate_ok (h a)"
  shows "plate_ok (InitPlate a h a) \<and>
    (\<forall>i j. in_plate i j \<longrightarrow>
       cell (InitPlate a h a) i j =
         (if (i = 0 \<or> i = 9) \<and> 0 < j \<and> j < 9 then Finite 100 else Finite 0))"
  using InitPlate_result[of h a] assms
  by (simp add: in_plate_def PLATE_SIZE_def INITIAL_TEMP_def)

theorem InitPlate_cells_witness:
  "cell (InitPlate () (\<lambda>_. uniform (Finite 7)) ()) 0 5 = Finite 100 \<and>
   cell (InitPlate () (\<lambda>_. uniform (Finite 7)) ()) 9 8 = Finite 100 \<and>
   cell (InitPlate () (\<lambda>_. uniform (Finite 7)) ()) 0 0 = Finite 0 \<and>
   cell (InitPlate () (\<lambda>_. uniform (Finite 7)) ()) 9 9 = Finite 0 \<and>
   cell (InitPlate () (\<lambda>_. uniform (Finite 7)) ()) 4 0 = Finite 0 \<and>
   cell (InitPlate () (\<lambda>_. uniform (Finite 7)) ()) 4 4 = Finite 0"
  using InitPlate_cells[of "\<lambda>_. uniform (Finite 7)" "()"]
  by (simp add: plate_ok_uniform in_plate_def PLATE_SIZE_def)

section \<open>The relaxation step\<close>

text \<open>
  Claim C1.  Called with two different arrays, \<open>UpdateTemps\<close> sets every interior cell of
  the output plate to the mean of the four neighbours that the cell has in the input plate
  (the sum of the upper, the left, the right and the lower neighbour, in this order, divided
  by four), leaves every border cell of the output plate as it was, and changes neither the
  input plate nor any other array.
\<close>

theorem UpdateTemps_interior_mean:
  assumes "inputHeatDist \<noteq> outputHeatDist"
    and "plate_ok (h inputHeatDist)" and "plate_ok (h outputHeatDist)"
  shows "(\<forall>i j. in_plate i j \<longrightarrow>
       cell (UpdateTemps inputHeatDist outputHeatDist h outputHeatDist) i j =
         (if interior i j then
            (cell (h inputHeatDist) (i - 1) j + cell (h inputHeatDist) i (j - 1) +
             cell (h inputHeatDist) i (j + 1) + cell (h inputHeatDist) (i + 1) j) / Finite 4
          else cell (h outputHeatDist) i j)) \<and>
    plate_ok (UpdateTemps inputHeatDist outputHeatDist h outputHeatDist) \<and>
    UpdateTemps inputHeatDist outputHeatDist h inputHeatDist = h inputHeatDist \<and>
    (\<forall>a. a \<noteq> outputHeatDist \<longrightarrow> UpdateTemps inputHeatDist outputHeatDist h a = h a)"
  using UpdateTemps_distinct[of inputHeatDist outputHeatDist h, OF assms(1,3)] assms(1)
  by (auto simp: interior_def)

theorem UpdateTemps_interior_mean_witness:
  "cell (UpdateTemps False True (\<lambda>b. if b then uniform (Finite 3) else uniform (Finite 8)) True)
     4 5 = Finite 8 \<and>
   cell (UpdateTemps False True (\<lambda>b. if b then uniform (Finite 3) else uniform (Finite 8)) True)
     0 5 = Finite 3 \<and>
   cell (UpdateTemps False True (\<lambda>b. if b then uniform (Finite 3) else uniform (Finite 8)) True)
     9 9 = Finite 3 \<and>
   UpdateTemps False True (\<lambda>b. if b then uniform (Finite 3) else uniform (Finite 8)) False =
     uniform (Finite 8)"
proof -
  have "finite_within (DBL_MAX / 4) (Finite 8)"
    by (simp add: finite_within_def DBL_MAX_def)
  then have "(Finite 8 + Finite 8 + Finite 8 + Finite 8) / Finite 4 = Finite 8"
    by (rule uniform_mean)
  then show ?thesis
    using UpdateTemps_interior_mean[of False True
        "\<lambda>b. if b then uniform (Finite 3) else uniform (Finite 8)"]
    by (simp add: plate_ok_uniform in_plate_def interior_def PLATE_SIZE_def cell_uniform)
qed

text \<open>
  Claim C6, amended.  A plate whose cells all hold the same finite value \<open>c\<close> with
  \<open>\<bar>c\<bar> \<le> DBL_MAX / 4\<close> is a fixed point of the relaxation step: the sum of four such
  cells does not overflow, and when the border cells of the output plate hold \<open>c\<close> as
  well (the interior of the output plate is arbitrary), the output plate is the input plate
  after the call.  The output array may also be the input array itself.
\<close>

theorem UpdateTemps_uniform_fixed_point:
  assumes "finite_within (DBL_MAX / 4) c"
    and "h inputHeatDist = uniform c" and "plate_ok (h outputHeatDist)"
    and "\<forall>i j. in_plate i j \<and> \<not> interior i j \<longrightarrow> cell (h outputHeatDist) i j = c"
  shows "UpdateTemps inputHeatDist outputHeatDist h outputHeatDist = uniform c \<and>
         UpdateTemps inputHeatDist outputHeatDist h inputHeatDist = uniform c"
proof (cases "inputHeatDist = outputHeatDist")
  case True
  then show ?thesis
    using UpdateTemps_in_place_uniform[of h inputHeatDist c] assms(1,2)
    by (simp add: uniform_mean)
next
  case False
  note upd = UpdateTemps_distinct[of inputHeatDist outputHeatDist h, OF False assms(3)]
  have "UpdateTemps inputHeatDist outputHeatDist h outputHeatDist = uniform c"
  proof (rule plate_eqI)
    show "plate_ok (UpdateTemps inputHeatDist outputHeatDist h outputHeatDist)"
      using upd by simp
    show "plate_ok (uniform c)" by (rule plate_ok_uniform)
  next
    fix i j assume ij: "in_plate i j"
    show "cell (UpdateTemps inputHeatDist outputHeatDist h outputHeatDist) i j =
          cell (uniform c) i j"
    proof (cases "interior i j")
      case True
      then have "in_plate (i - 1) j" "in_plate i (j - 1)" "in_plate i (j + 1)"
        "in_plate (i + 1) j"
        by (auto simp: in_plate_def interior_def)
      then show ?thesis
        using upd True ij assms(1)
        by (simp add: assms(2) cell_uniform interior_def uniform_mean)
    next
      case False
      then have "cell (UpdateTemps inputHeatDist outputHeatDist h outputHeatDist) i j =
            cell (h outputHeatDist) i j"
        using upd by (auto simp: interior_def)
      then show ?thesis
        using assms(4) ij False by (simp add: cell_uniform)
    qed
  qed
  moreover have "UpdateTemps inputHeatDist outputHeatDist h inputHeatDist = uniform c"
    using upd False assms(2) by simp
  ultimately show ?thesis by simp
qed

theorem UpdateTemps_uniform_fixed_point_witness:
  "UpdateTemps False True (\<lambda>b. uniform (Finite 5)) True = uniform (Finite 5) \<and>
   UpdateTemps True True (\<lambda>b. uniform (Finite 5)) True = uniform (Finite 5)"
proof -
  have "finite_within (DBL_MAX / 4) (Finite 5)"
    by (simp add: finite_within_def DBL_MAX_def)
  then show ?thesis
    using UpdateTemps_uniform_fixed_point[of "Finite 5" "\<lambda>b. uniform (Finite 5)" False True]
      UpdateTemps_uniform_fixed_point[of "Finite 5" "\<lambda>b. uniform (Finite 5)" True True]
    by (simp add: plate_ok_uniform cell_uniform)
qed

text \<open>
  Claim C6 as it is stated fails: it holds for no value whose fourfold sum overflows.  On the
  plate whose cells all hold \<open>2^1023\<close>, with an output plate that holds the same values,
  the sum of the first two neighbours is \<open>2^1024\<close>, which is no double: the interior
  cell (1,1) of the output becomes the infinity, and the output is not the input.
\<close>

theorem UpdateTemps_uniform_overflow_counterexample:
  "cell (UpdateTemps False True (\<lambda>b. uniform (Finite (2 ^ 1023))) True) 1 1 = PosInf \<and>
   UpdateTemps False True (\<lambda>b. uniform (Finite (2 ^ 1023))) True \<noteq> uniform (Finite (2 ^ 1023))"
proof -
  have "overflow_bound \<le> 2 ^ 1023 + 2 ^ 1023"
    by (simp add: overflow_bound_def)
  then have "(Finite (2 ^ 1023) + Finite (2 ^ 1023) + Finite (2 ^ 1023) + Finite (2 ^ 1023)) /
      Finite 4 = PosInf"
    by (rule overflowing_mean)
  then have c: "cell (UpdateTemps False True (\<lambda>b. uniform (Finite (2 ^ 1023))) True) 1 1 = PosInf"
    by (simp add: UpdateTemps_cell plate_ok_uniform interior_def PLATE_SIZE_def cell_uniform
        in_plate_def)
  have "cell (uniform (Finite (2 ^ 1023))) 1 1 = Finite (2 ^ 1023)"
    by (simp add: cell_uniform in_plate_def PLATE_SIZE_def)
  with c have "cell (UpdateTemps False True (\<lambda>b. uniform (Finite (2 ^ 1023))) True) 1 1 \<noteq>
      cell (uniform (Finite (2 ^ 1023))) 1 1"
    by simp
  then have "UpdateTemps False True (\<lambda>b. uniform (Finite (2 ^ 1023))) True \<noteq>
      uniform (Finite (2 ^ 1023))"
    by auto
  with c show ?thesis by simp
qed

text \<open>
  Claim C7.  After both arrays were initialised by \<open>InitPlate\<close>, the first relaxation
  step gives the interior cells (1,1) and (1,5) the value (100 + 0 + 0 + 0) / 4 = 25.
\<close>

theorem first_iteration_cells:
  assumes "plate_ok (h OldHeatDist)" and "plate_ok (h NewHeatDist)"
  shows "cell (UpdateTemps OldHeatDist NewHeatDist
                 (InitPlate NewHeatDist (InitPlate OldHeatDist h)) NewHeatDist) 1 1 = Finite 25 \<and>
         cell (UpdateTemps OldHeatDist NewHeatDist
                 (InitPlate NewHeatDist (InitPlate OldHeatDist h)) NewHeatDist) 1 5 = Finite 25"
proof -
  let ?h1 = "InitPlate OldHeatDist h"
  have ok1: "plate_ok (?h1 NewHeatDist)"
    using assms by (simp add: InitPlate_other)
  have old: "InitPlate NewHeatDist ?h1 OldHeatDist = ?h1 OldHeatDist"
    using ok1 by (simp add: InitPlate_other)
  have c: "cell (?h1 OldHeatDist) i j =
      (if (i = 0 \<or> i = 9) \<and> 0 < j \<and> j < 9 then Finite 100 else Finite 0)"
    if "i < 10" "j < 10" for i j
    using that assms(1)
    by (simp add: InitPlate_cell in_plate_def PLATE_SIZE_def INITIAL_TEMP_def)
  have mean: "(Finite 100 + Finite 0 + Finite 0 + Finite 0) / Finite 4 = Finite 25"
    using overflow_bound_large by (simp add: Finite_plus Finite_divide_4)
  show ?thesis
    using ok1 by (simp add: UpdateTemps_cell InitPlate_ok old c interior_def PLATE_SIZE_def mean)
qed

theorem first_iteration_cells_witness:
  "cell (UpdateTemps OldHeatDist NewHeatDist
           (InitPlate NewHeatDist (InitPlate OldHeatDist (\<lambda>b. uniform (Finite 7)))) NewHeatDist)
     1 1 = Finite 25 \<and>
   cell (UpdateTemps OldHeatDist NewHeatDist
           (InitPlate NewHeatDist (InitPlate OldHeatDist (\<lambda>b. uniform (Finite 7)))) NewHeatDist)
     1 5 = Finite 25"
  using first_iteration_cells[of "\<lambda>b. uniform (Finite 7)"] by (simp add: plate_ok_uniform)

section \<open>The convergence check\<close>

lemma StateChanged_cols_iff:
  "StateChanged_cols old new eps i j \<longleftrightarrow>
   (\<exists>j'. j \<le> j' \<and> j' < PLATE_SIZE - 1 \<and> \<bar>cell new i j' - cell old i j'\<bar> > eps)"
proof (induction old new eps i j rule: StateChanged_cols.induct)
  case (1 old new eps i j)
  show ?case
  proof (cases "j < PLATE_SIZE - 1")
    case False
    then show ?thesis
      by (subst StateChanged_cols.simps) auto
  next
    case in_range: True
    show ?thesis
    proof (cases "\<bar>cell new i j - cell old i j\<bar> > eps")
      case True
      then show ?thesis
        using in_range by (subst StateChanged_cols.simps) auto
    next
      case False
      have "StateChanged_cols old new eps i j = StateChanged_cols old new eps i (j + 1)"
        using in_range False by (subst StateChanged_cols.simps) simp
      also have "\<dots> \<longleftrightarrow>
          (\<exists>j'. j + 1 \<le> j' \<and> j' < PLATE_SIZE - 1 \<and> \<bar>cell new i j' - cell old i j'\<bar> > eps)"
        using "1.IH" in_range False by simp
      also have "\<dots> \<longleftrightarrow>
          (\<exists>j'. j \<le> j' \<and> j' < PLATE_SIZE - 1 \<and> \<bar>cell new i j' - cell old i j'\<bar> > eps)"
      proof
        assume "\<exists>j'. j + 1 \<le> j' \<and> j' < PLATE_SIZE - 1 \<and> \<bar>cell new i j' - cell old i j'\<bar> > eps"
        then obtain j' where "j + 1 \<le> j'" "j' < PLATE_SIZE - 1"
          "\<bar>cell new i j' - cell old i j'\<bar> > eps" by blast
        then show "\<exists>j'. j \<le> j' \<and> j' < PLATE_SIZE - 1 \<and> \<bar>cell new i j' - cell old i j'\<bar> > eps"
          by (intro exI[of _ j']) simp
      next
        assume "\<exists>j'. j \<le> j' \<and> j' < PLATE_SIZE - 1 \<and> \<bar>cell new i j' - cell old i j'\<bar> > eps"
        then obtain j' where j': "j \<le> j'" "j' < PLATE_SIZE - 1"
          "\<bar>cell new i j' - cell old i j'\<bar> > eps" by blast
        then have "j' \<noteq> j" using False by auto
        then show "\<exists>j'. j + 1 \<le> j' \<and> j' < PLATE_SIZE - 1 \<and> \<bar>cell new i j' - cell old i j'\<bar> > eps"
          using j' by (intro exI[of _ j']) simp
      qed
      finally show ?thesis .
    qed
  qed
qed

lemma StateChanged_rows_iff:
  "StateChanged_rows old new eps i \<longleftrightarrow>
   (\<exists>i' j'. i \<le> i' \<and> i' < PLATE_SIZE - 1 \<and> 1 \<le> j' \<and> j' < PLATE_SIZE - 1 \<and>
      \<bar>cell new i' j' - cell old i' j'\<bar> > eps)"
proof (induction old new eps i rule: StateChanged_rows.induct)
  case (1 old new eps i)
  let ?hit = "\<lambda>i' j'. 1 \<le> j' \<and> j' < PLATE_SIZE - 1 \<and> \<bar>cell new i' j' - cell old i' j'\<bar> > eps"
  show ?case
  proof (cases "i < PLATE_SIZE - 1")
    case False
    then show ?thesis
      by (subst StateChanged_rows.simps) auto
  next
    case in_range: True
    show ?thesis
    proof (cases "StateChanged_cols old new eps i 1")
      case True
      then have "\<exists>j'. ?hit i j'"
        by (simp add: StateChanged_cols_iff)
      then have "\<exists>i' j'. i \<le> i' \<and> i' < PLATE_SIZE - 1 \<and> ?hit i' j'"
        using in_range by blast
      then show ?thesis
        using in_range True by (subst StateChanged_rows.simps) simp
    next
      case False
      then have none: "\<not> (\<exists>j'. ?hit i j')"
        by (simp add: StateChanged_cols_iff)
      have "StateChanged_rows old new eps i = StateChanged_rows old new eps (i + 1)"
        using in_range False by (subst StateChanged_rows.simps) simp
      also have "\<dots> \<longleftrightarrow> (\<exists>i' j'. i + 1 \<le> i' \<and> i' < PLATE_SIZE - 1 \<and> ?hit i' j')"
        using "1.IH" in_range False by simp
      also have "\<dots> \<longleftrightarrow> (\<exists>i' j'. i \<le> i' \<and> i' < PLATE_SIZE - 1 \<and> ?hit i' j')"
      proof
        assume "\<exists>i' j'. i + 1 \<le> i' \<and> i' < PLATE_SIZE - 1 \<and> ?hit i' j'"
        then obtain i' j' where "i + 1 \<le> i'" "i' < PLATE_SIZE - 1" "?hit i' j'" by blast
        then have "i \<le> i' \<and> i' < PLATE_SIZE - 1 \<and> ?hit i' j'" by simp
        then show "\<exists>i' j'. i \<le> i' \<and> i' < PLATE_SIZE - 1 \<and> ?hit i' j'" by blast
      next
        assume "\<exists>i' j'. i \<le> i' \<and> i' < PLATE_SIZE - 1 \<and> ?hit i' j'"
        then obtain i' j' where h: "i \<le> i'" "i' < PLATE_SIZE - 1" "?hit i' j'" by blast
        then have "i' \<noteq> i" using none by blast
        then have "i + 1 \<le> i' \<and> i' < PLATE_SIZE - 1 \<and> ?hit i' j'" using h by simp
        then show "\<exists>i' j'. i + 1 \<le> i' \<and> i' < PLATE_SIZE - 1 \<and> ?hit i' j'" by blast
      qed
      finally show ?thesis .
    qed
  qed
qed

lemma StateChanged_interior:
  "StateChanged old new eps h \<longleftrightarrow>
   (\<exists>i j. interior i j \<and> \<bar>cell (h new) i j - cell (h old) i j\<bar> > eps)"
  unfolding StateChanged_def StateChanged_rows_iff interior_def
  by (metis One_nat_def Suc_le_eq)

text \<open>
  Claim C2.  For a threshold that is not negative, \<open>StateChanged\<close> is true exactly when
  some interior cell differs between the two plates by more than the threshold.  So it is
  false for two equal plates, and true when one interior cell differs by more than the
  threshold and all other cells are equal.
\<close>

theorem StateChanged_iff:
  assumes "plate_ok (h oldHeatArray)" and "plate_ok (h newHeatDist)"
    and "Finite 0 \<le> epsilonVal"
  shows "(StateChanged oldHeatArray newHeatDist epsilonVal h \<longleftrightarrow>
      (\<exists>i j. interior i j \<and>
         \<bar>cell (h newHeatDist) i j - cell (h oldHeatArray) i j\<bar> > epsilonVal)) \<and>
    (h newHeatDist = h oldHeatArray \<longrightarrow> \<not> StateChanged oldHeatArray newHeatDist epsilonVal h) \<and>
    (\<forall>i j. interior i j \<and>
        \<bar>cell (h newHeatDist) i j - cell (h oldHeatArray) i j\<bar> > epsilonVal \<and>
        (\<forall>i' j'. in_plate i' j' \<and> (i', j') \<noteq> (i, j) \<longrightarrow>
           cell (h newHeatDist) i' j' = cell (h oldHeatArray) i' j') \<longrightarrow>
        StateChanged oldHeatArray newHeatDist epsilonVal h)"
  using assms(3) unfolding StateChanged_interior
  by (auto simp: no_change_of_equal_cells)

theorem StateChanged_iff_witness:
  "StateChanged False True (Finite (1 / 10))
     (\<lambda>b. if b then store_cell (uniform (Finite 0)) 3 4 (Finite 1) else uniform (Finite 0)) \<and>
   \<not> StateChanged False True (Finite (1 / 10)) (\<lambda>b. uniform (Finite 0))"
proof -
  let ?h = "\<lambda>b. if b then store_cell (uniform (Finite 0)) 3 4 (Finite 1) else uniform (Finite 0)"
  have "\<bar>Finite 1 - Finite 0\<bar> > Finite (1 / 10)"
    using overflow_bound_large by (simp add: Finite_minus abs_Finite Finite_less)
  then have "interior 3 4 \<and>
      \<bar>cell (store_cell (uniform (Finite 0)) 3 4 (Finite 1)) 3 4 - cell (uniform (Finite 0)) 3 4\<bar> >
        Finite (1 / 10)"
    by (simp add: interior_def PLATE_SIZE_def in_plate_def cell_uniform
        cell_store_cell[OF plate_ok_uniform])
  then have "\<exists>i j. interior i j \<and>
      \<bar>cell (store_cell (uniform (Finite 0)) 3 4 (Finite 1)) i j - cell (uniform (Finite 0)) i j\<bar> >
        Finite (1 / 10)"
    by blast
  then have "StateChanged False True (Finite (1 / 10)) ?h"
    using StateChanged_iff[of ?h False True "Finite (1 / 10)"]
    by (simp add: plate_ok_uniform plate_ok_store_cell Finite_less_eq)
  moreover have "\<not> StateChanged False True (Finite (1 / 10)) (\<lambda>b. uniform (Finite 0))"
    using StateChanged_iff[of "\<lambda>b. uniform (Finite 0)" False True "Finite (1 / 10)"]
    by (simp add: plate_ok_uniform Finite_less_eq no_change_of_equal_cells)
  ultimately show ?thesis by simp
qed

section \<open>Output\<close>

lemma for_loop_append:
  assumes "\<And>k t. body k t = t @ g k"
  shows "for_loop 0 n body t0 = t0 @ concat (map g [0..<n])"
  by (rule for_loop_rule[where P = "\<lambda>k t. t = t0 @ concat (map g [0..<k])"])
    (simp_all add: assms)

lemma OutputPlate_text:
  "OutputPlate lib a h out = out @
     concat (map (\<lambda>i. concat (map (\<lambda>j. field lib (cell (h a) i j) @
        (if j \<noteq> PLATE_SIZE - 1 then '','' else [])) [0..<PLATE_SIZE]) @ endl) [0..<PLATE_SIZE])"
proof -
  have inner: "for_loop 0 PLATE_SIZE (\<lambda>j outputStream.
         let outputStream = outputStream @
               setw OUTPUT_WIDTH (show_fixed lib OUTPUT_PRECISION (cell (h a) i j))
         in if j \<noteq> PLATE_SIZE - 1 then outputStream @ '','' else outputStream) t =
      t @ concat (map (\<lambda>j. field lib (cell (h a) i j) @
        (if j \<noteq> PLATE_SIZE - 1 then '','' else [])) [0..<PLATE_SIZE])" for i t
    by (rule for_loop_append) (simp add: field_def Let_def)
  show ?thesis
    unfolding OutputPlate_def inner
    by (rule for_loop_append) simp
qed

lemma list10:
  assumes "length xs = 10"
  obtains x0 x1 x2 x3 x4 x5 x6 x7 x8 x9 where "xs = [x0, x1, x2, x3, x4, x5, x6, x7, x8, x9]"
proof -
  from assms obtain x0 r0 where "xs = x0 # r0" "length r0 = 9"
    by (cases xs) auto
  moreover then obtain x1 r1 where "r0 = x1 # r1" "length r1 = 8"
    by (cases r0) auto
  moreover then obtain x2 r2 where "r1 = x2 # r2" "length r2 = 7"
    by (cases r1) auto
  moreover then obtain x3 r3 where "r2 = x3 # r3" "length r3 = 6"
    by (cases r2) auto
  moreover then obtain x4 r4 where "r3 = x4 # r4" "length r4 = 5"
    by (cases r3) auto
  moreover then obtain x5 r5 where "r4 = x5 # r5" "length r5 = 4"
    by (cases r4) auto
  moreover then obtain x6 r6 where "r5 = x6 # r6" "length r6 = 3"
    by (cases r5) auto
  moreover then obtain x7 r7 where "r6 = x7 # r7" "length r7 = 2"
    by (cases r6) auto
  moreover then obtain x8 r8 where "r7 = x8 # r8" "length r8 = 1"
    by (cases r7) auto
  moreover then obtain x9 where "r8 = [x9]"
    by (cases r8) auto
  ultimately show ?thesis
    using that by blast
qed

lemma upt10: "[0..<10] = [0, 1, 2, 3, 4, 5, 6, 7, 8, 9]"
  by (simp add: upt_rec)

lemma row_text:
  assumes "length row = 10"
  shows "concat (map (\<lambda>j. field lib (row ! j) @ (if j \<noteq> 9 then '','' else [])) [0..<10]) =
         join_fields (map (field lib) row)"
proof -
  obtain x0 x1 x2 x3 x4 x5 x6 x7 x8 x9 where "row = [x0, x1, x2, x3, x4, x5, x6, x7, x8, x9]"
    using assms by (rule list10)
  then show ?thesis
    by (simp add: upt10)
qed

lemma OutputPlate_plate_text:
  assumes "plate_ok (h a)"
  shows "OutputPlate lib a h out = out @ plate_text lib (h a)"
proof -
  have len: "length (h a) = 10"
    using assms by (simp add: plate_ok_def PLATE_SIZE_def)
  have rows: "\<And>i. i < 10 \<Longrightarrow> length (h a ! i) = 10"
    using assms by (simp add: plate_ok_def PLATE_SIZE_def list_all_length)
  obtain r0 r1 r2 r3 r4 r5 r6 r7 r8 r9 where p: "h a = [r0, r1, r2, r3, r4, r5, r6, r7, r8, r9]"
    using len by (rule list10)
  have "concat (map (\<lambda>i. concat (map (\<lambda>j. field lib (cell (h a) i j) @
        (if j \<noteq> 9 then '','' else [])) [0..<10]) @ endl) [0..<10]) =
      concat (map (\<lambda>i. join_fields (map (field lib) (h a ! i)) @ endl) [0..<10])"
    by (intro arg_cong[where f = concat] map_cong refl)
      (simp add: cell_def row_text rows)
  also have "\<dots> = plate_text lib (h a)"
    unfolding plate_text_def p by (simp add: upt10)
  finally show ?thesis
    by (simp add: OutputPlate_text PLATE_SIZE_def)
qed

lemma digit_char_is_digit: "d < 10 \<Longrightarrow> is_digit (digit_char d)"
proof -
  assume "d < 10"
  then have "d \<in> {0, 1, 2, 3, 4, 5, 6, 7, 8, 9}" by auto
  then show ?thesis
    by (auto simp: is_digit_def digit_char_def)
qed

lemma show_nat_digits: "list_all is_digit (show_nat n) \<and> show_nat n \<noteq> []"
proof (induction n rule: show_nat.induct)
  case (1 n)
  show ?case
  proof (cases "n < 10")
    case True
    then show ?thesis
      by (subst (1 2) show_nat.simps) (simp add: digit_char_is_digit)
  next
    case False
    then show ?thesis
      using 1 by (subst (1 2) show_nat.simps) (simp add: digit_char_is_digit)
  qed
qed

lemma length_show_nat: "n < 10 ^ Suc k \<Longrightarrow> length (show_nat n) \<le> Suc k"
proof (induction k arbitrary: n)
  case 0
  then show ?case by (subst show_nat.simps) simp
next
  case (Suc k)
  show ?case
  proof (cases "n < 10")
    case True
    then show ?thesis by (subst show_nat.simps) simp
  next
    case False
    have "n div 10 < 10 ^ Suc k"
      using Suc.prems by (simp add: less_mult_imp_div_less)
    then have "length (show_nat (n div 10)) \<le> Suc k"
      by (rule Suc.IH)
    then show ?thesis
      using False by (subst show_nat.simps) simp
  qed
qed

lemma show_frac_3: "length (show_frac 3 (n mod 1000)) = 3 \<and> list_all is_digit (show_frac 3 (n mod 1000))"
proof -
  have "n mod 1000 < 10 ^ Suc 2" by simp
  then have "length (show_nat (n mod 1000)) \<le> 3"
    using length_show_nat[of "n mod 1000" 2] by simp
  moreover have "is_digit (CHR ''0'')" by (simp add: is_digit_def)
  moreover have "list_all is_digit (show_nat (n mod 1000))"
    by (simp add: show_nat_digits)
  ultimately show ?thesis
    by (auto simp: show_frac_def list_all_iff)
qed

lemma show_decimal_3_shape:
  "\<exists>int_part frac_part.
     show_decimal 3 negative a = (if negative then ''-'' else []) @ int_part @ ''.'' @ frac_part \<and>
     int_part \<noteq> [] \<and> list_all is_digit int_part \<and>
     length frac_part = 3 \<and> list_all is_digit frac_part"
proof -
  let ?n = "nat (round_half_even (a * 10 ^ 3))"
  have "show_decimal 3 negative a =
      (if negative then ''-'' else []) @ show_nat (?n div 1000) @ ''.'' @ show_frac 3 (?n mod 1000)"
    by (simp add: show_decimal_def Let_def)
  then show ?thesis
    using show_nat_digits[of "?n div 1000"] show_frac_3[of ?n] by blast
qed

lemma show_fixed_3_shape:
  assumes "is_finite x"
  shows "\<exists>int_part frac_part.
     show_fixed lib 3 x = (if sign_bit x then ''-'' else []) @ int_part @ ''.'' @ frac_part \<and>
     int_part \<noteq> [] \<and> list_all is_digit int_part \<and>
     length frac_part = 3 \<and> list_all is_digit frac_part"
proof (cases x)
  case (Finite r)
  then show ?thesis
    using show_decimal_3_shape[of "r < 0" "\<bar>r\<bar>"] by (simp add: show_fixed_def sign_bit_def)
next
  case NegZero
  then show ?thesis
    using show_decimal_3_shape[of True 0] by (simp add: show_fixed_def sign_bit_def)
qed (use assms in \<open>simp_all add: is_finite_def\<close>)

lemma show_fixed_nonfinite: "\<not> is_finite x \<Longrightarrow> show_fixed lib p x = lib x"
  by (cases x) (simp_all add: is_finite_def show_fixed_def)

lemma replicate_numeral: "replicate (numeral k) x = x # replicate (pred_numeral k) x"
  by (simp add: numeral_eq_Suc)

lemma length_setw: "length (setw w s) = max w (length s)"
  by (simp add: setw_def)

lemma show_fixed_zero: "show_fixed lib 3 (Finite 0) = ''0.000''"
  by (simp add: show_fixed_def show_decimal_def round_half_even_def Let_def
      show_frac_def show_nat.simps digit_char_def replicate_numeral)

lemma show_fixed_negative_zero: "show_fixed lib 3 NegZero = ''-0.000''"
  by (simp add: show_fixed_def show_decimal_def round_half_even_def Let_def
      show_frac_def show_nat.simps digit_char_def replicate_numeral)

lemma field_zero: "field lib (Finite 0) = ''    0.000''"
  by (simp add: field_def OUTPUT_WIDTH_def OUTPUT_PRECISION_def show_fixed_zero setw_def
      replicate_numeral)

lemma field_big: "field lib (Finite 100000) = ''100000.000''"
  by (simp add: field_def OUTPUT_WIDTH_def OUTPUT_PRECISION_def show_fixed_def show_decimal_def
      round_half_even_def Let_def show_frac_def setw_def show_nat.simps digit_char_def
      replicate_numeral)

lemma plate_text_zero:
  "plate_text lib (uniform (Finite 0)) =
     concat (replicate 10 (join_fields (replicate 10 ''    0.000'') @ endl))"
  by (simp add: plate_text_def uniform_def PLATE_SIZE_def replicate_numeral field_zero)

lemma field_pad:
  "field lib x = replicate (9 - length (show_fixed lib 3 x)) (CHR '' '') @ show_fixed lib 3 x"
  by (simp add: field_def setw_def OUTPUT_WIDTH_def OUTPUT_PRECISION_def)

text \<open>
  Claim C8, amended.  \<open>OutputPlate\<close> appends to the stream the ten rows of the plate in
  their order, every row on a line of its own, the ten fields of a row in their order and
  joined by commas, with no comma after the last field.  A field is the text of its cell,
  padded on the left with spaces to nine characters; a text that needs more than nine
  characters is written in full, and its field is as long as the text.  The text of a finite
  cell is the number in fixed-point notation with exactly three digits after the point,
  after a minus sign when the cell is negative or the negative zero, which is written
  \<^verbatim>\<open>-0.000\<close>.  The text of an infinity or a NaN is the one that the stream library
  has for it.  In the text of a plate of positive zeros every field is
  \<^verbatim>\<open>    0.000\<close>.  The text written to the console and the text written to
  \<^verbatim>\<open>Hotplate.csv\<close> are the same.
\<close>

theorem OutputPlate_format:
  assumes "plate_ok (heap w a)"
  defines "lib \<equiv> nonfinite_text w"
  shows "OutputPlate lib a (heap w) out = out @ plate_text lib (heap w a) \<and>
    (\<forall>x. field lib x =
            replicate (9 - length (show_fixed lib 3 x)) (CHR '' '') @ show_fixed lib 3 x \<and>
         length (field lib x) = max 9 (length (show_fixed lib 3 x))) \<and>
    (\<forall>x. is_finite x \<longrightarrow>
       (\<exists>int_part frac_part.
          show_fixed lib 3 x = (if sign_bit x then ''-'' else []) @ int_part @ ''.'' @ frac_part \<and>
          int_part \<noteq> [] \<and> list_all is_digit int_part \<and>
          length frac_part = 3 \<and> list_all is_digit frac_part)) \<and>
    show_fixed lib 3 NegZero = ''-0.000'' \<and>
    (\<forall>x. \<not> is_finite x \<longrightarrow> show_fixed lib 3 x = lib x) \<and>
    (heap w a = uniform (Finite 0) \<longrightarrow>
       plate_text lib (heap w a) =
         concat (replicate 10 (join_fields (replicate 10 ''    0.000'') @ endl))) \<and>
    cout (print_plate a w) = cout w @ plate_text lib (heap w a) \<and>
    (csv_writable w \<longrightarrow>
       hotplate_csv (snd (ExportPlateToCSV a w)) = Some (plate_text lib (heap w a)))"
proof -
  have rendered: "OutputPlate lib a (heap w) t = t @ plate_text lib (heap w a)" for t
    using assms(1) by (rule OutputPlate_plate_text)
  have "length (field lib x) = max 9 (length (show_fixed lib 3 x))" for x
    by (simp add: field_def length_setw OUTPUT_WIDTH_def OUTPUT_PRECISION_def)
  moreover have "cout (print_plate a w) = cout w @ plate_text lib (heap w a)"
    using rendered by (simp add: print_plate_def lib_def)
  moreover have "csv_writable w \<longrightarrow>
       hotplate_csv (snd (ExportPlateToCSV a w)) = Some (plate_text lib (heap w a))"
    using rendered[of "[]"] by (simp add: ExportPlateToCSV_def lib_def)
  ultimately show ?thesis
    using rendered[of out] field_pad[of lib] show_fixed_3_shape[of _ lib]
      show_fixed_nonfinite[of _ lib 3] plate_text_zero[of lib] show_fixed_negative_zero[of lib]
    by simp
qed

theorem OutputPlate_format_witness:
  "OutputPlate example_nonfinite NewHeatDist (\<lambda>b. uniform (Finite 0)) [] =
     concat (replicate 10 (join_fields (replicate 10 ''    0.000'') @ endl)) \<and>
   hotplate_csv (snd (ExportPlateToCSV NewHeatDist (example_world True))) =
     Some (concat (replicate 10 (join_fields (replicate 10 ''    0.000'') @ endl))) \<and>
   cout (print_plate NewHeatDist (example_world True)) =
     concat (replicate 10 (join_fields (replicate 10 ''    0.000'') @ endl)) \<and>
   show_fixed example_nonfinite 3 PosInf = ''inf'' \<and>
   (\<exists>int_part frac_part.
      show_fixed example_nonfinite 3 (Finite (- 1 / 2)) = ''-'' @ int_part @ ''.'' @ frac_part \<and>
      length frac_part = 3)"
proof -
  let ?w = "example_world True"
  have w: "heap ?w NewHeatDist = uniform (Finite 0)" "nonfinite_text ?w = example_nonfinite"
    "csv_writable ?w" "cout ?w = []"
    by (simp_all add: example_world_def)
  have ok: "plate_ok (heap ?w NewHeatDist)"
    by (simp add: w plate_ok_uniform)
  note t = OutputPlate_format[OF ok, of "[]", unfolded w]
  from t have shape: "\<forall>x. is_finite x \<longrightarrow>
       (\<exists>int_part frac_part.
          show_fixed example_nonfinite 3 x =
            (if sign_bit x then ''-'' else []) @ int_part @ ''.'' @ frac_part \<and>
          int_part \<noteq> [] \<and> list_all is_digit int_part \<and>
          length frac_part = 3 \<and> list_all is_digit frac_part)"
    and other: "\<forall>x. \<not> is_finite x \<longrightarrow> show_fixed example_nonfinite 3 x = example_nonfinite x"
    by blast+
  have "show_fixed example_nonfinite 3 PosInf = ''inf''"
    using other[rule_format, of PosInf] by (simp add: is_finite_def example_nonfinite_def)
  moreover have "\<exists>int_part frac_part.
      show_fixed example_nonfinite 3 (Finite (- 1 / 2)) = ''-'' @ int_part @ ''.'' @ frac_part \<and>
      length frac_part = 3"
    using shape[rule_format, of "Finite (- 1 / 2)"]
    by (auto simp: is_finite_def sign_bit_def)
  ultimately show ?thesis
    using t by (simp add: example_world_def)
qed

text \<open>
  Claim C8 as it is stated fails: the column is not nine characters wide for every plate.
  In the output of a plate whose first cell holds 100000, the first field (the text before
  the first comma) has ten characters.
\<close>

theorem OutputPlate_width_counterexample:
  "takeWhile (\<lambda>ch. ch \<noteq> CHR '','')
     (OutputPlate example_nonfinite ()
        (\<lambda>_. store_cell (uniform (Finite 0)) 0 0 (Finite 100000)) []) = ''100000.000'' \<and>
   length (takeWhile (\<lambda>ch. ch \<noteq> CHR '','')
     (OutputPlate example_nonfinite ()
        (\<lambda>_. store_cell (uniform (Finite 0)) 0 0 (Finite 100000)) [])) \<noteq> 9"
proof -
  have "plate_ok (store_cell (uniform (Finite 0)) 0 0 (Finite 100000))"
    by (simp add: plate_ok_uniform plate_ok_store_cell)
  then have "OutputPlate example_nonfinite ()
        (\<lambda>_. store_cell (uniform (Finite 0)) 0 0 (Finite 100000)) [] =
      plate_text example_nonfinite (store_cell (uniform (Finite 0)) 0 0 (Finite 100000))"
    using OutputPlate_plate_text[of
        "\<lambda>_. store_cell (uniform (Finite 0)) 0 0 (Finite 100000)" "()" example_nonfinite "[]"]
    by simp
  then show ?thesis
    by (simp add: plate_text_def uniform_def store_cell_def PLATE_SIZE_def replicate_numeral
        field_zero field_big)
qed

section \<open>Failures of the files\<close>

lemma simulate_files:
  "csv_writable (simulate w) = csv_writable w \<and> inputplate_txt (simulate w) = inputplate_txt w \<and>
   hotplate_csv (simulate w) = hotplate_csv w"
  by (simp add: simulate_def Let_def print_def on_heap_def print_plate_def)

lemma for_loop_3: "for_loop 0 3 body s = body 2 (body 1 (body 0 s))"
  by (simp add: for_loop.simps numeral_2_eq_2)

text \<open>
  Claim C10.  When \<^verbatim>\<open>Inputplate.txt\<close> cannot be opened, \<open>InitPlateFromTxt\<close> returns
  the status 1 and leaves every array as it was.
\<close>

theorem InitPlateFromTxt_open_failure:
  assumes "inputplate_txt w = None"
  shows "fst (InitPlateFromTxt passedHeatDist w) = 1 \<and>
         heap (snd (InitPlateFromTxt passedHeatDist w)) = heap w"
  using assms by (simp add: InitPlateFromTxt_def print_def)

theorem InitPlateFromTxt_open_failure_witness:
  "fst (InitPlateFromTxt OldHeatDist (example_world True)) = 1 \<and>
   heap (snd (InitPlateFromTxt OldHeatDist (example_world True))) = (\<lambda>b. uniform (Finite 0))"
  using InitPlateFromTxt_open_failure[of "example_world True" OldHeatDist]
  by (simp add: example_world_def)

text \<open>
  Claim C5.  When \<^verbatim>\<open>Hotplate.csv\<close> cannot be opened, \<open>ExportPlateToCSV\<close> prints its
  message and returns the status 1; \<open>main\<close> then prints its own message and ends with
  the exit status 1.  When the file can be opened, \<open>main\<close> ends with the exit status 0.
\<close>

theorem export_failure_exit_status:
  \<open>(\<not> csv_writable w \<longrightarrow>
      ExportPlateToCSV passedHeatDist w =
        (1, print (''Could not open file Hotplate.csv'' @ endl) w)) \<and>
   (\<not> csv_writable w0 \<longrightarrow>
      main w0 =
        (1, print ''Error occurred when writing to CSV''
              (print (''Could not open file Hotplate.csv'' @ endl)
                 (print (endl @ ''Writing final plate to "Hotplate.csv"...'' @ endl @ endl)
                    (simulate w0))))) \<and>
   (csv_writable w0 \<longrightarrow> fst (main w0) = 0)\<close>
  by (simp add: main_def Let_def ExportPlateToCSV_def simulate_files print_def
      split: prod.splits)

theorem export_failure_exit_status_witness:
  "fst (main (example_world False)) = 1 \<and> fst (main (example_world True)) = 0 \<and>
   fst (ExportPlateToCSV NewHeatDist (example_world False)) = 1"
  using export_failure_exit_status[of "example_world False" NewHeatDist "example_world False"]
    export_failure_exit_status[of "example_world False" NewHeatDist "example_world True"]
  by (simp add: example_world_def)

text \<open>
  Claim C9.  When \<^verbatim>\<open>Inputplate.txt\<close> cannot be opened (and the export before it went
  well), \<open>InitPlateFromTxt\<close> prints its message and returns the status 1 to \<open>main\<close>,
  and \<open>main\<close> goes on: it runs the three updates on the arrays as they are, prints the
  plate and ends with the exit status 0.
\<close>

theorem main_continues_after_import_failure:
  assumes "csv_writable w0" and "inputplate_txt w0 = None"
  shows \<open>let w = snd (ExportPlateToCSV NewHeatDist
                 (print (endl @ ''Writing final plate to "Hotplate.csv"...'' @ endl @ endl)
                    (simulate w0)));
             update = (\<lambda>h. TransferValues NewHeatDist OldHeatDist
                               (UpdateTemps OldHeatDist NewHeatDist h))
         in InitPlateFromTxt OldHeatDist w =
              (1, print (''Could not open file numFile.txt.'' @ endl) w) \<and>
            main w0 =
              (0, print_plate OldHeatDist
                    (on_heap (\<lambda>h. update (update (update h)))
                       (print (''Printing input plate after 3 updates...'' @ endl)
                          (print (''Could not open file numFile.txt.'' @ endl) w))))\<close>
  using assms
  by (simp add: main_def Let_def ExportPlateToCSV_def InitPlateFromTxt_def simulate_files
      print_def on_heap_def DESIRED_ITERATIONS_def for_loop_3)

theorem main_continues_after_import_failure_witness:
  \<open>fst (main (example_world True)) = 0 \<and>
   fst (InitPlateFromTxt OldHeatDist (snd (ExportPlateToCSV NewHeatDist
         (print (endl @ ''Writing final plate to "Hotplate.csv"...'' @ endl @ endl)
            (simulate (example_world True)))))) = 1\<close>
  using main_continues_after_import_failure[of "example_world True"]
  by (simp add: example_world_def Let_def)

section \<open>The steady-state loop\<close>



































end
